theory Spec2Isabelle
  imports Complex_Main
begin

section \<open>Assignment 2: sliding-window rate limiter\<close>

text \<open>
  The middleware \<open>rate_limiter\<close> of \<open>assignment2/main.py\<close>. The process-wide dictionary
  \<open>rate_limit_store\<close> maps a client address to the list of instants of its admitted
  requests. Instants are the values of \<open>time.time()\<close>; they are modelled as real numbers,
  and the value read by one middleware call is an argument of the model.
\<close>

type_synonym rate_limit_store = "string \<rightharpoonup> real list"

definition RATE_LIMIT_MAX_REQUESTS :: nat where
  "RATE_LIMIT_MAX_REQUESTS = 10"

definition RATE_LIMIT_WINDOW :: real where
  "RATE_LIMIT_WINDOW = 60"

text \<open>
  What the middleware answers: \<open>Deny\<close> is the JSON response with status 429 returned
  without calling the route, \<open>Allow\<close> is the response of \<open>call_next(request)\<close>.
\<close>

datatype decision = Allow | Deny

definition timestamps :: "rate_limit_store \<Rightarrow> string \<Rightarrow> real list" where
  "timestamps store client_ip = (case store client_ip of None \<Rightarrow> [] | Some ts \<Rightarrow> ts)"

definition rate_limiter :: "rate_limit_store \<Rightarrow> string \<Rightarrow> real \<Rightarrow> rate_limit_store \<times> decision" where
  "rate_limiter store client_ip current_time =
    (let store1 = (if store client_ip = None then store(client_ip \<mapsto> []) else store);
         store2 = store1(client_ip \<mapsto>
                    filter (\<lambda>t. t > current_time - RATE_LIMIT_WINDOW) (timestamps store1 client_ip))
     in if length (timestamps store2 client_ip) \<ge> RATE_LIMIT_MAX_REQUESTS
        then (store2, Deny)
        else (store2(client_ip \<mapsto> timestamps store2 client_ip @ [current_time]), Allow))"

text \<open>
  A run of the server: the requests \<open>(client address, instant)\<close> pass through the
  middleware one after the other; the result is the final store and the decisions in
  order.
\<close>

fun serve :: "rate_limit_store \<Rightarrow> (string \<times> real) list \<Rightarrow> rate_limit_store \<times> decision list" where
  "serve store [] = (store, [])"
| "serve store ((client_ip, current_time) # reqs) =
     (let (store', d) = rate_limiter store client_ip current_time;
          (store'', ds) = serve store' reqs
      in (store'', d # ds))"

section \<open>Assignment 2: TTL cache\<close>

text \<open>
  Class \<open>WeatherCache\<close>. An entry is the dictionary \<open>{'data': ..., 'expiry': ...}\<close>; the
  payload type is left open. The instant read by \<open>time.time()\<close> is an argument.
\<close>

record 'v entry =
  data :: 'v
  expiry :: real

record 'v WeatherCache =
  store :: "string \<rightharpoonup> 'v entry"
  hits :: nat
  misses :: nat

definition CACHE_TTL_SECONDS :: real where
  "CACHE_TTL_SECONDS = 600"

definition init_cache :: "'v WeatherCache" where
  "init_cache = \<lparr>store = Map.empty, hits = 0, misses = 0\<rparr>"

definition get :: "'v WeatherCache \<Rightarrow> string \<Rightarrow> real \<Rightarrow> 'v WeatherCache \<times> 'v option" where
  "get c key now =
    (case store c key of
       None \<Rightarrow> (c\<lparr>misses := misses c + 1\<rparr>, None)
     | Some e \<Rightarrow>
         if now > expiry e
         then (c\<lparr>store := (store c)(key := None), misses := misses c + 1\<rparr>, None)
         else (c\<lparr>hits := hits c + 1\<rparr>, Some (data e)))"

definition set_entry :: "'v WeatherCache \<Rightarrow> string \<Rightarrow> 'v \<Rightarrow> real \<Rightarrow> 'v WeatherCache" where
  "set_entry c key d now =
     c\<lparr>store := (store c)(key \<mapsto> \<lparr>data = d, expiry = now + CACHE_TTL_SECONDS\<rparr>)\<rparr>"

definition clear :: "'v WeatherCache \<Rightarrow> 'v WeatherCache" where
  "clear c = c\<lparr>store := Map.empty, hits := 0, misses := 0\<rparr>"

record stats =
  cache_hits :: nat
  cache_misses :: nat
  cached_items_count :: nat

definition get_stats :: "'v WeatherCache \<Rightarrow> stats" where
  "get_stats c = \<lparr>cache_hits = hits c, cache_misses = misses c,
                  cached_items_count = card (dom (store c))\<rparr>"

section \<open>Python values and exceptions\<close>

text \<open>
  The exceptions the three programs raise or let escape. \<open>HTTPException s d\<close> is
  FastAPI's exception with status \<open>s\<close> and detail \<open>d\<close>; the others are the library and
  built-in exceptions named alike.
\<close>

datatype exn =
    HTTPException nat string
  | HTTPStatusError
  | RequestError
  | JSONDecodeError
  | KeyError
  | IndexError
  | TypeError
  | AttributeError
  | IntegrityError
  | ValueError string
  | ValidationError

definition bindE :: "exn + 'a \<Rightarrow> ('a \<Rightarrow> exn + 'b) \<Rightarrow> exn + 'b" where
  "bindE m f = (case m of Inl e \<Rightarrow> Inl e | Inr x \<Rightarrow> f x)"

text \<open>
  Titles, user names, emails, city names and messages are lists of 8-bit characters; the
  handlers compare them, test them for emptiness and lower them. \<open>lower\<close> lowers the
  letters \<open>A\<close> to \<open>Z\<close>, which is what \<open>lower()\<close> of SQLite does and what \<open>str.lower()\<close>
  does on ASCII text; a city name with letters outside ASCII is outside the model.
  A password, whose length and characters the validator of assignment 1 inspects, is a
  list of code points of an open type.
\<close>

definition lower_char :: "char \<Rightarrow> char" where
  "lower_char c =
     (case map_of (zip ''ABCDEFGHIJKLMNOPQRSTUVWXYZ'' ''abcdefghijklmnopqrstuvwxyz'') c of
        None \<Rightarrow> c
      | Some l \<Rightarrow> l)"

definition lower :: "string \<Rightarrow> string" where
  "lower s = map lower_char s"

text \<open>
  What \<open>response.json()\<close> returns. A dictionary is an association list read with
  \<open>map_of\<close>; numbers are real numbers.
\<close>

datatype json =
    JNull
  | JBool bool
  | JNum real
  | JStr string
  | JList "json list"
  | JDict "(string \<times> json) list"

fun truthy :: "json \<Rightarrow> bool" where
  "truthy JNull = False"
| "truthy (JBool b) = b"
| "truthy (JNum x) = (x \<noteq> 0)"
| "truthy (JStr s) = (s \<noteq> [])"
| "truthy (JList xs) = (xs \<noteq> [])"
| "truthy (JDict kvs) = (kvs \<noteq> [])"

text \<open>\<open>obj[key]\<close> with a string key.\<close>

fun getitem :: "json \<Rightarrow> string \<Rightarrow> exn + json" where
  "getitem (JDict kvs) k = (case map_of kvs k of None \<Rightarrow> Inl KeyError | Some v \<Rightarrow> Inr v)"
| "getitem _ k = Inl TypeError"

text \<open>\<open>obj[i]\<close> with an index \<open>i \<ge> 0\<close>.\<close>

fun getindex :: "json \<Rightarrow> nat \<Rightarrow> exn + json" where
  "getindex (JList xs) i = (if i < length xs then Inr (xs ! i) else Inl IndexError)"
| "getindex (JStr s) i = (if i < length s then Inr (JStr [s ! i]) else Inl IndexError)"
| "getindex (JDict kvs) i = Inl KeyError"
| "getindex _ i = Inl TypeError"

text \<open>\<open>obj.get(key)\<close>: only a dictionary has the method.\<close>

fun dict_get :: "json \<Rightarrow> string \<Rightarrow> exn + json" where
  "dict_get (JDict kvs) k = Inr (case map_of kvs k of None \<Rightarrow> JNull | Some v \<Rightarrow> v)"
| "dict_get _ k = Inl AttributeError"

fun py_len :: "json \<Rightarrow> exn + nat" where
  "py_len (JList xs) = Inr (length xs)"
| "py_len (JStr s) = Inr (length s)"
| "py_len (JDict kvs) = Inr (length (remdups (map fst kvs)))"
| "py_len _ = Inl TypeError"

section \<open>Assignment 2: the weather endpoints\<close>

definition WMO_CODES :: "(int \<times> string) list" where
  "WMO_CODES =
    [(0, ''Clear sky''),
     (1, ''Mainly clear''), (2, ''Partly cloudy''), (3, ''Overcast''),
     (45, ''Fog''), (48, ''Depositing rime fog''),
     (51, ''Drizzle: Light''), (53, ''Drizzle: Moderate''), (55, ''Drizzle: Dense''),
     (61, ''Rain: Slight''), (63, ''Rain: Moderate''), (65, ''Rain: Heavy''),
     (71, ''Snow: Slight''), (73, ''Snow: Moderate''), (75, ''Snow: Heavy''),
     (77, ''Snow grains''),
     (80, ''Rain showers: Slight''), (81, ''Rain showers: Moderate''),
     (82, ''Rain showers: Violent''),
     (95, ''Thunderstorm: Slight or Moderate''),
     (96, ''Thunderstorm with slight hail''), (99, ''Thunderstorm with heavy hail'')]"

definition wmo_lookup :: "real \<Rightarrow> string" where
  "wmo_lookup x =
     (case find (\<lambda>(k, d). of_int k = x) WMO_CODES of
        None \<Rightarrow> ''Unknown''
      | Some (k, d) \<Rightarrow> d)"

text \<open>
  \<open>WMO_CODES.get(code, "Unknown")\<close> on whatever the upstream sent as the code: a number
  is looked up by value (\<open>True\<close> and \<open>False\<close> hash as 1 and 0), a list or a dictionary
  is unhashable.
\<close>

fun get_weather_desc :: "json \<Rightarrow> exn + string" where
  "get_weather_desc (JNum x) = Inr (wmo_lookup x)"
| "get_weather_desc (JBool b) = Inr (wmo_lookup (if b then 1 else 0))"
| "get_weather_desc (JList xs) = Inl TypeError"
| "get_weather_desc (JDict kvs) = Inl TypeError"
| "get_weather_desc _ = Inr ''Unknown''"

text \<open>
  The upstream service is an argument of the model: what one \<open>client.get\<close> meets.
  \<open>No_reply\<close> is a connection failure or the expiry of the client's timeout
  (\<open>HTTP_TIMEOUT\<close>, 5 seconds), both raised by httpx as \<open>RequestError\<close>;
  \<open>Reply status body\<close> is a response, whose body is \<open>None\<close> when it is not JSON.
\<close>

datatype reply = No_reply | Reply nat "json option"

text \<open>
  The three lines \<open>client.get(...)\<close>, \<open>response.raise_for_status()\<close>,
  \<open>response.json()\<close>, which each fetch of the source repeats.
\<close>

definition fetch_json :: "reply \<Rightarrow> exn + json" where
  "fetch_json r =
     (case r of
        No_reply \<Rightarrow> Inl RequestError
      | Reply st body \<Rightarrow>
          if \<not> (200 \<le> st \<and> st < 300) then Inl HTTPStatusError
          else (case body of None \<Rightarrow> Inl JSONDecodeError | Some d \<Rightarrow> Inr d))"

definition get_coordinates :: "(string \<Rightarrow> reply) \<Rightarrow> string \<Rightarrow> exn + json" where
  "get_coordinates geo city =
     (case bindE (fetch_json (geo city)) (\<lambda>payload.
             bindE (dict_get payload ''results'') (\<lambda>results.
               if \<not> truthy results
               then Inl (HTTPException 404
                          (''City '' @ [CHR 0x27] @ city @ [CHR 0x27] @ '' not found.''))
               else bindE (getitem payload ''results'') (\<lambda>rs. getindex rs 0)))
      of
        Inl HTTPStatusError \<Rightarrow> Inl (HTTPException 503 ''Weather service unavailable'')
      | Inl RequestError \<Rightarrow> Inl (HTTPException 503 ''Weather service unavailable'')
      | r \<Rightarrow> r)"

text \<open>Step 3 of \<open>get_current_weather\<close>: the body of the \<open>try\<close> after the fetch.\<close>

definition current_result :: "json \<Rightarrow> json \<Rightarrow> json \<Rightarrow> exn + json" where
  "current_result location city_name_resolved payload =
     bindE (getitem payload ''current'') (\<lambda>current.
     bindE (dict_get location ''country'') (\<lambda>country.
     bindE (getitem current ''temperature_2m'') (\<lambda>temperature.
     bindE (getitem current ''relative_humidity_2m'') (\<lambda>humidity.
     bindE (getitem current ''wind_speed_10m'') (\<lambda>wind_speed.
     bindE (getitem current ''weather_code'') (\<lambda>code.
     bindE (get_weather_desc code) (\<lambda>condition.
     bindE (getitem current ''time'') (\<lambda>timestamp.
       Inr (JDict
         [(''city'', city_name_resolved),
          (''country'', country),
          (''temperature'', temperature),
          (''unit'', JStr ''Celsius''),
          (''humidity'', humidity),
          (''wind_speed'', wind_speed),
          (''condition'', JStr condition),
          (''timestamp'', timestamp)])))))))))"

text \<open>
  \<open>get_current_weather\<close>: \<open>geo\<close> and \<open>wx\<close> are the geocoding and the weather service,
  \<open>now\<close> the instant of the cache read and \<open>now'\<close> the instant of the cache write.
\<close>

definition fetch_current_weather ::
  "(string \<Rightarrow> reply) \<Rightarrow> (json \<Rightarrow> json \<Rightarrow> reply) \<Rightarrow> json WeatherCache \<Rightarrow> string \<Rightarrow> string \<Rightarrow> real
     \<Rightarrow> json WeatherCache \<times> (exn + json)" where
  "fetch_current_weather geo wx c cache_key city now' =
     (case get_coordinates geo city of
        Inl e \<Rightarrow> (c, Inl e)
      | Inr location \<Rightarrow>
         (case bindE (getitem location ''latitude'') (\<lambda>lat.
               bindE (getitem location ''longitude'') (\<lambda>lon.
               bindE (getitem location ''name'') (\<lambda>name. Inr (lat, lon, name)))) of
            Inl e \<Rightarrow> (c, Inl e)
          | Inr (lat, lon, city_name_resolved) \<Rightarrow>
             (case bindE (fetch_json (wx lat lon))
                     (current_result location city_name_resolved) of
                Inl RequestError \<Rightarrow>
                  (c, Inl (HTTPException 503
                        ''Weather service unavailable (Connection Error)''))
              | Inl e \<Rightarrow> (c, Inl (HTTPException 500 ''Internal Server Error''))
              | Inr result \<Rightarrow> (set_entry c cache_key result now', Inr result))))"

definition get_current_weather ::
  "(string \<Rightarrow> reply) \<Rightarrow> (json \<Rightarrow> json \<Rightarrow> reply) \<Rightarrow> json WeatherCache \<Rightarrow> string \<Rightarrow> real \<Rightarrow> real
     \<Rightarrow> json WeatherCache \<times> (exn + json)" where
  "get_current_weather geo wx c city now now' =
     (let cache_key = ''current_'' @ lower city;
          (c1, cached_data) = get c cache_key now
      in case cached_data of
           None \<Rightarrow> fetch_current_weather geo wx c1 cache_key city now'
         | Some d \<Rightarrow>
             if truthy d then (c1, Inr d)
             else fetch_current_weather geo wx c1 cache_key city now')"

text \<open>The loop of \<open>get_weather_forecast\<close> over \<open>range(len(daily["time"]))\<close>.\<close>

definition forecast_entry :: "json \<Rightarrow> nat \<Rightarrow> exn + json" where
  "forecast_entry daily i =
     bindE (bindE (getitem daily ''time'') (\<lambda>a. getindex a i)) (\<lambda>date.
     bindE (bindE (getitem daily ''temperature_2m_max'') (\<lambda>a. getindex a i)) (\<lambda>max_temp.
     bindE (bindE (getitem daily ''temperature_2m_min'') (\<lambda>a. getindex a i)) (\<lambda>min_temp.
     bindE (bindE (bindE (getitem daily ''weather_code'') (\<lambda>a. getindex a i))
              get_weather_desc) (\<lambda>condition.
     bindE (bindE (getitem daily ''precipitation_sum'') (\<lambda>a. getindex a i)) (\<lambda>precipitation.
       Inr (JDict
         [(''date'', date),
          (''max_temp'', max_temp),
          (''min_temp'', min_temp),
          (''condition'', JStr condition),
          (''precipitation_mm'', precipitation)]))))))"

fun forecast_loop :: "json \<Rightarrow> nat list \<Rightarrow> exn + json list" where
  "forecast_loop daily [] = Inr []"
| "forecast_loop daily (i # rest) =
     bindE (forecast_entry daily i) (\<lambda>e.
     bindE (forecast_loop daily rest) (\<lambda>es. Inr (e # es)))"

definition forecast_result :: "json \<Rightarrow> json \<Rightarrow> exn + json" where
  "forecast_result location payload =
     bindE (getitem payload ''daily'') (\<lambda>daily.
     bindE (bindE (getitem daily ''time'') py_len) (\<lambda>n.
     bindE (forecast_loop daily [0..<n]) (\<lambda>forecast_list.
     bindE (getitem location ''name'') (\<lambda>name.
     bindE (dict_get location ''country'') (\<lambda>country.
       Inr (JDict
         [(''city'', name),
          (''country'', country),
          (''forecast'', JList forecast_list)]))))))"

definition fetch_weather_forecast ::
  "(string \<Rightarrow> reply) \<Rightarrow> (json \<Rightarrow> json \<Rightarrow> reply) \<Rightarrow> json WeatherCache \<Rightarrow> string \<Rightarrow> string \<Rightarrow> real
     \<Rightarrow> json WeatherCache \<times> (exn + json)" where
  "fetch_weather_forecast geo wx c cache_key city now' =
     (case get_coordinates geo city of
        Inl e \<Rightarrow> (c, Inl e)
      | Inr location \<Rightarrow>
         (case bindE (getitem location ''latitude'') (\<lambda>lat.
               bindE (getitem location ''longitude'') (\<lambda>lon. Inr (lat, lon))) of
            Inl e \<Rightarrow> (c, Inl e)
          | Inr (lat, lon) \<Rightarrow>
             (case bindE (fetch_json (wx lat lon)) (forecast_result location) of
                Inl RequestError \<Rightarrow>
                  (c, Inl (HTTPException 503 ''Weather service unavailable''))
              | Inl e \<Rightarrow> (c, Inl e)
              | Inr result \<Rightarrow> (set_entry c cache_key result now', Inr result))))"

definition get_weather_forecast ::
  "(string \<Rightarrow> reply) \<Rightarrow> (json \<Rightarrow> json \<Rightarrow> reply) \<Rightarrow> json WeatherCache \<Rightarrow> string \<Rightarrow> real \<Rightarrow> real
     \<Rightarrow> json WeatherCache \<times> (exn + json)" where
  "get_weather_forecast geo wx c city now now' =
     (let cache_key = ''forecast_'' @ lower city;
          (c1, cached_data) = get c cache_key now
      in case cached_data of
           None \<Rightarrow> fetch_weather_forecast geo wx c1 cache_key city now'
         | Some d \<Rightarrow>
             if truthy d then (c1, Inr d)
             else fetch_weather_forecast geo wx c1 cache_key city now')"

text \<open>
  The status of the HTTP response: 200 for a returned payload, the status of an
  \<open>HTTPException\<close>, and 500 for any other exception that leaves the route.
\<close>

definition status_code :: "exn + 'a \<Rightarrow> nat" where
  "status_code r =
     (case r of Inr _ \<Rightarrow> 200 | Inl (HTTPException s d) \<Rightarrow> s | Inl _ \<Rightarrow> 500)"

section \<open>Assignments 1 and 3: the relational store\<close>

text \<open>
  A table is the list of its rows in insertion order. The modules \<open>models\<close>,
  \<open>auth\<close> and \<open>security\<close> of the two programs are not among the files verified here;
  the columns are those the handlers and the response schemas read, and the
  timestamp columns, which no handler writes, are left out.
\<close>

record user =
  user_id :: int
  username :: string
  email :: string
  hashed_password :: string

record post =
  post_id :: int
  title :: string
  content :: string
  post_author_id :: int

record comment =
  comment_id :: int
  comment_text :: string
  comment_author_id :: int
  comment_post_id :: int

record db =
  users :: "user list"
  posts :: "post list"
  comments :: "comment list"

text \<open>
  The request bodies \<open>UserCreate\<close>, \<open>UserUpdate\<close> and \<open>PostUpdate\<close> of \<open>schemas.py\<close>. The
  password is a Python \<open>str\<close>, a sequence of Unicode code points: \<open>'c\<close> is the type of
  a code point.
\<close>

record 'c UserCreate =
  new_username :: string
  new_email :: string
  password :: "'c list"

record UserUpdate =
  upd_username :: "string option"
  upd_email :: "string option"

record PostUpdate =
  upd_title :: "string option"
  upd_content :: "string option"

text \<open>The truth value of an \<open>Optional[str]\<close>: neither \<open>None\<close> nor empty.\<close>

definition given :: "string option \<Rightarrow> bool" where
  "given v = (case v of None \<Rightarrow> False | Some s \<Rightarrow> s \<noteq> [])"

text \<open>
  Modelled from the spec: the key a new row receives. The store assigns ``id: integer'',
  unique among the rows; the model takes the next integer after the largest key.
\<close>

definition next_id :: "int list \<Rightarrow> int" where
  "next_id ids = fold max ids 0 + 1"

text \<open>
  The uniqueness constraints of a table are declared in \<open>models.py\<close>. A handler that
  commits a row takes them as the argument \<open>violates\<close>: \<open>violates rows r\<close> holds when the
  store refuses the row \<open>r\<close> beside the rows \<open>rows\<close>, which SQLAlchemy raises as
  \<open>IntegrityError\<close>. Two constraints a user table can carry:
\<close>

definition unique_email :: "user list \<Rightarrow> user \<Rightarrow> bool" where
  "unique_email rows r = list_ex (\<lambda>x. email x = email r) rows"

definition unique_username_and_email :: "user list \<Rightarrow> user \<Rightarrow> bool" where
  "unique_username_and_email rows r =
     list_ex (\<lambda>x. username x = username r \<or> email x = email r) rows"

section \<open>Assignment 1: registration and profile update\<close>



text \<open>
  \<open>register\<close> of \<open>assignment1/main.py\<close>. An \<open>IntegrityError\<close> of the commit is not caught;
  the session is closed without a commit and the table stays as it was.
\<close>

definition register_a1 ::
  "('c list \<Rightarrow> string) \<Rightarrow> (user list \<Rightarrow> user \<Rightarrow> bool) \<Rightarrow> user list \<Rightarrow> 'c UserCreate
     \<Rightarrow> user list \<times> (exn + user)" where
  "register_a1 get_password_hash violates rows u =
     (case find (\<lambda>r. email r = new_email u) rows of
        Some existing \<Rightarrow> (rows, Inl (HTTPException 400 ''Email already registered''))
      | None \<Rightarrow>
          (let hashed_pw = get_password_hash (password u);
               new_user = \<lparr>user_id = next_id (map user_id rows),
                           username = new_username u,
                           email = new_email u,
                           hashed_password = hashed_pw\<rparr>
           in if violates rows new_user then (rows, Inl IntegrityError)
              else (rows @ [new_user], Inr new_user)))"


text \<open>
  \<open>update_user_me\<close> of \<open>assignment1/main.py\<close>; \<open>current_user\<close> is the row the bearer
  token resolved to. The commit rewrites the row of that key.
\<close>

definition update_user_me ::
  "(user list \<Rightarrow> user \<Rightarrow> bool) \<Rightarrow> user list \<Rightarrow> UserUpdate \<Rightarrow> user \<Rightarrow> user list \<times> (exn + user)" where
  "update_user_me violates rows user_update current_user =
     (let new_mail = (case upd_email user_update of None \<Rightarrow> [] | Some e \<Rightarrow> e);
          changes_email = (given (upd_email user_update) \<and> new_mail \<noteq> email current_user)
      in if changes_email \<and> find (\<lambda>r. email r = new_mail) rows \<noteq> None
         then (rows, Inl (HTTPException 400 ''Email already in use''))
         else
          (let u1 = (if changes_email then current_user\<lparr>email := new_mail\<rparr> else current_user);
               u2 = (case upd_username user_update of
                       None \<Rightarrow> u1
                     | Some n \<Rightarrow> if n \<noteq> [] then u1\<lparr>username := n\<rparr> else u1)
           in if violates (filter (\<lambda>r. user_id r \<noteq> user_id current_user) rows) u2
              then (rows, Inl IntegrityError)
              else (map (\<lambda>r. if user_id r = user_id current_user then u2 else r) rows,
                    Inr u2)))"

section \<open>Assignment 3: the blog\<close>

text \<open>
  \<open>register\<close> of \<open>assignment3/main.py\<close>. Its \<open>UserCreate\<close> has no validator, so the
  handler receives every body with the three string fields. An \<open>IntegrityError\<close> of the
  commit is caught, the session rolled back and the error answered with status 400.
\<close>

definition register_a3 ::
  "('c list \<Rightarrow> string) \<Rightarrow> (user list \<Rightarrow> user \<Rightarrow> bool) \<Rightarrow> db \<Rightarrow> 'c UserCreate
     \<Rightarrow> db \<times> (exn + user)" where
  "register_a3 get_password_hash violates d u =
     (case find (\<lambda>r. username r = new_username u) (users d) of
        Some db_user \<Rightarrow> (d, Inl (HTTPException 400 ''Username already registered''))
      | None \<Rightarrow>
          (let hashed_pwd = get_password_hash (password u);
               new_user = \<lparr>user_id = next_id (map user_id (users d)),
                           username = new_username u,
                           email = new_email u,
                           hashed_password = hashed_pwd\<rparr>
           in if violates (users d) new_user
              then (d, Inl (HTTPException 400 ''Email already registered''))
              else (d\<lparr>users := users d @ [new_user]\<rparr>, Inr new_user)))"

text \<open>
  The SQL operator \<open>LIKE\<close>: in the pattern \<open>%\<close> stands for any run of characters and
  \<open>_\<close> for any one character. \<open>ilike\<close> compares the lowered text with the lowered
  pattern.
\<close>

fun like :: "string \<Rightarrow> string \<Rightarrow> bool" where
  "like [] [] = True"
| "like [] (c # cs) = False"
| "like (p # ps) [] = (p = CHR ''%'' \<and> like ps [])"
| "like (p # ps) (c # cs) =
     (if p = CHR ''%'' then like ps (c # cs) \<or> like (p # ps) cs
      else if p = CHR ''_'' then like ps cs
      else p = c \<and> like ps cs)"

definition ilike :: "string \<Rightarrow> string \<Rightarrow> bool" where
  "ilike txt pattern = like (lower pattern) (lower txt)"

text \<open>
  \<open>OFFSET\<close> and \<open>LIMIT\<close> as SQLite, the engine of the test suite, runs them: a negative
  offset skips nothing and a negative limit does not bound the result. The two numbers
  are those of the 64-bit range the engine binds; a larger \<open>skip\<close> or \<open>limit\<close>, which
  the driver refuses with \<open>OverflowError\<close>, is outside the model.
\<close>

definition sql_offset :: "int \<Rightarrow> 'a list \<Rightarrow> 'a list" where
  "sql_offset n rows = drop (nat n) rows"

definition sql_limit :: "int \<Rightarrow> 'a list \<Rightarrow> 'a list" where
  "sql_limit n rows = (if n < 0 then rows else take (nat n) rows)"

definition get_posts :: "db \<Rightarrow> int \<Rightarrow> int \<Rightarrow> string option \<Rightarrow> post list" where
  "get_posts d skip limit search =
     (let query = posts d;
          query' = (case search of
                      None \<Rightarrow> query
                    | Some s \<Rightarrow>
                        if s \<noteq> []
                        then filter (\<lambda>p. ilike (title p) (''%'' @ s @ ''%'')) query
                        else query)
      in sql_limit limit (sql_offset skip query'))"

definition update_post :: "db \<Rightarrow> int \<Rightarrow> PostUpdate \<Rightarrow> user \<Rightarrow> db \<times> (exn + post)" where
  "update_post d pid post_update current_user =
     (case find (\<lambda>p. post_id p = pid) (posts d) of
        None \<Rightarrow> (d, Inl (HTTPException 404 ''Post not found''))
      | Some db_post \<Rightarrow>
          if post_author_id db_post \<noteq> user_id current_user
          then (d, Inl (HTTPException 403 ''Not authorized to update this post''))
          else
           (let p1 = (case upd_title post_update of
                        None \<Rightarrow> db_post
                      | Some t \<Rightarrow> if t \<noteq> [] then db_post\<lparr>title := t\<rparr> else db_post);
                p2 = (case upd_content post_update of
                        None \<Rightarrow> p1
                      | Some c \<Rightarrow> if c \<noteq> [] then p1\<lparr>content := c\<rparr> else p1)
            in (d\<lparr>posts := map (\<lambda>p. if post_id p = pid then p2 else p) (posts d)\<rparr>,
                Inr p2)))"

text \<open>
  Modelled from the spec: the cascade of the relationship between posts and comments,
  declared in \<open>models.py\<close> (``deleting a Post cascades to delete all Comments
  referencing it''). The comments of the deleted post leave the table with it.
\<close>

definition cascade :: "int \<Rightarrow> comment list \<Rightarrow> comment list" where
  "cascade pid cs = filter (\<lambda>c. comment_post_id c \<noteq> pid) cs"

definition delete_post :: "db \<Rightarrow> int \<Rightarrow> user \<Rightarrow> db \<times> (exn + unit)" where
  "delete_post d pid current_user =
     (case find (\<lambda>p. post_id p = pid) (posts d) of
        None \<Rightarrow> (d, Inl (HTTPException 404 ''Post not found''))
      | Some db_post \<Rightarrow>
          if post_author_id db_post \<noteq> user_id current_user
          then (d, Inl (HTTPException 403 ''Not authorized to delete this post''))
          else (d\<lparr>posts := filter (\<lambda>p. post_id p \<noteq> pid) (posts d),
                   comments := cascade pid (comments d)\<rparr>,
                Inr ()))"

definition delete_comment :: "db \<Rightarrow> int \<Rightarrow> user \<Rightarrow> db \<times> (exn + unit)" where
  "delete_comment d cid current_user =
     (case find (\<lambda>c. comment_id c = cid) (comments d) of
        None \<Rightarrow> (d, Inl (HTTPException 404 ''Comment not found''))
      | Some cmt \<Rightarrow>
          if comment_author_id cmt \<noteq> user_id current_user
          then (d, Inl (HTTPException 403 ''Not authorized to delete this comment''))
          else (d\<lparr>comments := filter (\<lambda>c. comment_id c \<noteq> cid) (comments d)\<rparr>, Inr ()))"

section \<open>The rate limiter: lemmas\<close>

lemma rate_limiter_unfold:
  "rate_limiter rls ip now =
    (let kept = filter (\<lambda>t. now - 60 < t) (timestamps rls ip) in
     if 10 \<le> length kept then (rls(ip \<mapsto> kept), Deny)
     else (rls(ip \<mapsto> kept @ [now]), Allow))"
  by (simp add: rate_limiter_def timestamps_def RATE_LIMIT_MAX_REQUESTS_def
      RATE_LIMIT_WINDOW_def Let_def)

lemma timestamps_upd: "timestamps (rls(ip \<mapsto> l)) ip = l"
  by (simp add: timestamps_def)

lemma timestamps_upd_other: "ip' \<noteq> ip \<Longrightarrow> timestamps (rls(ip \<mapsto> l)) ip' = timestamps rls ip'"
  by (simp add: timestamps_def)

lemma serve_append:
  "serve rls (xs @ ys) =
     (fst (serve (fst (serve rls xs)) ys), snd (serve rls xs) @ snd (serve (fst (serve rls xs)) ys))"
  by (induction xs arbitrary: rls) (auto simp: Let_def split: prod.splits)

lemma rate_limiter_length:
  assumes "\<forall>c. length (timestamps rls c) \<le> 10"
  shows "length (timestamps (fst (rate_limiter rls ip now)) c) \<le> 10"
proof (cases "c = ip")
  case True
  have "length (filter (\<lambda>t. now - 60 < t) (timestamps rls ip)) \<le> 10"
    using assms length_filter_le[of "\<lambda>t. now - 60 < t" "timestamps rls ip"]
    by (meson le_trans)
  with True show ?thesis
    by (simp add: rate_limiter_unfold Let_def timestamps_upd)
next
  case False
  with assms show ?thesis
    by (simp add: rate_limiter_unfold Let_def timestamps_upd_other)
qed

lemma serve_length:
  "\<forall>c. length (timestamps rls c) \<le> 10 \<Longrightarrow> length (timestamps (fst (serve rls reqs)) c) \<le> 10"
proof (induction reqs arbitrary: rls)
  case Nil
  then show ?case by simp
next
  case (Cons r reqs)
  obtain ip now where r: "r = (ip, now)" by (cases r)
  have "\<forall>c. length (timestamps (fst (rate_limiter rls ip now)) c) \<le> 10"
    using rate_limiter_length[OF Cons.prems] by blast
  from Cons.IH[OF this] show ?case
    by (simp add: r split_def Let_def)
qed

lemma rate_limiter_recent:
  "\<forall>t\<in>set (timestamps (fst (rate_limiter rls ip now)) ip). now - 60 < t"
  by (simp add: rate_limiter_unfold Let_def timestamps_upd)


lemma burst_fresh:
  assumes "\<forall>s\<in>set (timestamps rls ip). \<forall>t\<in>set ts. t - 60 < s"
      and "\<forall>s\<in>set ts. \<forall>t\<in>set ts. t - 60 < s"
  shows "snd (serve rls (map (Pair ip) ts)) =
           replicate (min (10 - length (timestamps rls ip)) (length ts)) Allow @
           replicate (length ts - (10 - length (timestamps rls ip))) Deny
         \<and> timestamps (fst (serve rls (map (Pair ip) ts))) ip =
           timestamps rls ip @ take (10 - length (timestamps rls ip)) ts"
  using assms
proof (induction ts arbitrary: rls)
  case Nil
  then show ?case by simp
next
  case (Cons t ts)
  let ?l = "timestamps rls ip"
  have kept: "filter (\<lambda>s. t - 60 < s) ?l = ?l"
    using Cons.prems(1) by (simp add: filter_id_conv)
  have among: "\<forall>s\<in>set ts. \<forall>t\<in>set ts. t - 60 < s"
    using Cons.prems(2) by simp
  show ?case
  proof (cases "10 \<le> length ?l")
    case True
    define rls' where "rls' = rls(ip \<mapsto> ?l)"
    have step: "rate_limiter rls ip t = (rls', Deny)"
      using True by (simp add: rate_limiter_unfold kept rls'_def)
    have l': "timestamps rls' ip = ?l"
      by (simp add: rls'_def timestamps_upd)
    have "\<forall>s\<in>set (timestamps rls' ip). \<forall>t\<in>set ts. t - 60 < s"
      using Cons.prems(1) by (simp add: l')
    from Cons.IH[OF this among] True step show ?thesis
      by (simp add: l' split_def replicate_app_Cons_same)
  next
    case False
    define rls' where "rls' = rls(ip \<mapsto> ?l @ [t])"
    have step: "rate_limiter rls ip t = (rls', Allow)"
      using False by (simp add: rate_limiter_unfold kept rls'_def)
    have l': "timestamps rls' ip = ?l @ [t]"
      by (simp add: rls'_def timestamps_upd)
    have "\<forall>s\<in>set (timestamps rls' ip). \<forall>t\<in>set ts. t - 60 < s"
      using Cons.prems by (auto simp: l')
    note IH = Cons.IH[OF this among]
    from False obtain k where k: "10 - length ?l = Suc k"
      by (cases "10 - length ?l") auto
    then have k': "9 - length ?l = k" by simp
    from IH step show ?thesis
      by (simp add: l' split_def k k')
  qed
qed

lemma burst_stale:
  assumes stale: "\<forall>s\<in>set (timestamps rls ip). s \<le> t0 - 60"
      and near: "\<forall>t\<in>set ts. t0 \<le> t \<and> t \<le> t0 + 1"
      and ne: "ts \<noteq> []"
  shows "snd (serve rls (map (Pair ip) ts)) =
           replicate (min 10 (length ts)) Allow @ replicate (length ts - 10) Deny
         \<and> timestamps (fst (serve rls (map (Pair ip) ts))) ip = take 10 ts"
proof -
  from ne obtain t ts' where ts: "ts = t # ts'" by (cases ts) auto
  have "filter (\<lambda>s. t - 60 < s) (timestamps rls ip) = []"
    using stale near by (fastforce simp: ts filter_empty_conv)
  then have step: "rate_limiter rls ip t = (rls(ip \<mapsto> [t]), Allow)"
    by (simp add: rate_limiter_unfold)
  define rls' where "rls' = rls(ip \<mapsto> [t])"
  have l': "timestamps rls' ip = [t]" by (simp add: rls'_def timestamps_upd)
  have a: "\<forall>s\<in>set (timestamps rls' ip). \<forall>u\<in>set ts'. u - 60 < s"
    using near by (fastforce simp: l' ts)
  have b: "\<forall>s\<in>set ts'. \<forall>u\<in>set ts'. u - 60 < s"
  proof (intro ballI)
    fix s u assume "s \<in> set ts'" "u \<in> set ts'"
    with near have "t0 \<le> s" "u \<le> t0 + 1" by (auto simp: ts)
    then show "u - 60 < s" by linarith
  qed
  from burst_fresh[OF a b] step show ?thesis
    by (simp add: ts l' split_def rls'_def[symmetric])
qed

section \<open>Claims on the rate limiter\<close>

text \<open>
  C1. For every client and every store, one check of the rate limiter discards the
  instants of that client at or before \<open>now - 60\<close>, then denies without recording
  \<open>now\<close> when at least 10 instants remain, and otherwise appends \<open>now\<close> and allows.
  For a client whose stored instants are all stale (a client never seen has none),
  11 requests within one second are answered by exactly 10 \<open>Allow\<close> and then one
  \<open>Deny\<close>; and when a second burst of 11 requests starts after the window of the first
  has fully elapsed, it is again answered by 10 \<open>Allow\<close> and one \<open>Deny\<close>.
\<close>

theorem rate_limiter_sliding_window:
  assumes stale: "\<forall>s\<in>set (timestamps rls ip). s \<le> ta - 60"
      and len1: "length tsa = 11"
      and near1: "\<forall>t\<in>set tsa. ta \<le> t \<and> t \<le> ta + 1"
      and len2: "length tsb = 11"
      and near2: "\<forall>t\<in>set tsb. tb \<le> t \<and> t \<le> tb + 1"
      and elapsed: "\<forall>s\<in>set tsa. s \<le> tb - 60"
  shows "rate_limiter rls' c now =
           (let kept = filter (\<lambda>t. \<not> t \<le> now - 60) (timestamps rls' c) in
            if 10 \<le> length kept then (rls'(c \<mapsto> kept), Deny)
            else (rls'(c \<mapsto> kept @ [now]), Allow))
         \<and> snd (serve rls (map (Pair ip) tsa)) = replicate 10 Allow @ [Deny]
         \<and> snd (serve rls (map (Pair ip) (tsa @ tsb))) =
             replicate 10 Allow @ [Deny] @ replicate 10 Allow @ [Deny]"
proof -
  have step: "rate_limiter rls' c now =
           (let kept = filter (\<lambda>t. \<not> t \<le> now - 60) (timestamps rls' c) in
            if 10 \<le> length kept then (rls'(c \<mapsto> kept), Deny)
            else (rls'(c \<mapsto> kept @ [now]), Allow))"
    by (simp add: rate_limiter_unfold not_le)
  from len1 have ne1: "tsa \<noteq> []" by auto
  from len2 have ne2: "tsb \<noteq> []" by auto
  note b1 = burst_stale[OF stale near1 ne1]
  have first: "snd (serve rls (map (Pair ip) tsa)) = replicate 10 Allow @ [Deny]"
    using b1 len1 by simp
  define rls1 where "rls1 = fst (serve rls (map (Pair ip) tsa))"
  have "set (timestamps rls1 ip) \<subseteq> set tsa"
    using b1 by (simp add: rls1_def set_take_subset)
  with elapsed have stale1: "\<forall>s\<in>set (timestamps rls1 ip). s \<le> tb - 60"
    by blast
  note b2 = burst_stale[OF stale1 near2 ne2]
  have second: "snd (serve rls1 (map (Pair ip) tsb)) = replicate 10 Allow @ [Deny]"
    using b2 len2 by simp
  have both: "snd (serve rls (map (Pair ip) (tsa @ tsb))) =
             replicate 10 Allow @ [Deny] @ replicate 10 Allow @ [Deny]"
    using first second by (simp add: serve_append rls1_def)
  from step first both show ?thesis by blast
qed

theorem rate_limiter_sliding_window_witness:
  "snd (serve Map.empty (map (Pair ''10.0.0.1'')
          ([0, 1/10, 2/10, 3/10, 4/10, 5/10, 6/10, 7/10, 8/10, 9/10, 1] @
           [61, 61, 61, 61, 61, 61, 61, 61, 61, 61, 62]))) =
     replicate 10 Allow @ [Deny] @ replicate 10 Allow @ [Deny]"
proof -
  let ?a = "[0, 1/10, 2/10, 3/10, 4/10, 5/10, 6/10, 7/10, 8/10, 9/10, 1::real]"
  let ?b = "[61, 61, 61, 61, 61, 61, 61, 61, 61, 61, 62::real]"
  have h1: "\<forall>s\<in>set (timestamps Map.empty ''10.0.0.1''). s \<le> 0 - 60"
    by (simp add: timestamps_def)
  have h2: "length ?a = 11" by simp
  have h3: "\<forall>t\<in>set ?a. 0 \<le> t \<and> t \<le> 0 + 1" by simp
  have h4: "length ?b = 11" by simp
  have h5: "\<forall>t\<in>set ?b. 61 \<le> t \<and> t \<le> 61 + 1" by simp
  have h6: "\<forall>s\<in>set ?a. s \<le> 61 - 60" by simp
  show ?thesis
    by (rule rate_limiter_sliding_window[OF h1 h2 h3 h4 h5 h6, THEN conjunct2, THEN conjunct2])
qed

text \<open>
  C9, as the code has it. In every state the store reaches from the empty dictionary,
  the list of every client has at most 10 instants; and right after a check of a
  client at the instant \<open>now\<close>, the list of that client holds only instants later than
  \<open>now - 60\<close>. The lists of the other clients are pruned at their own next check only.
\<close>

theorem rate_limit_store_invariant:
  "(fst (serve Map.empty reqs) c = Some l \<longrightarrow> length l \<le> 10) \<and>
   (fst (serve Map.empty (reqs @ [(ip, now)])) ip = Some l' \<longrightarrow>
      length l' \<le> 10 \<and> (\<forall>t\<in>set l'. now - 60 < t))"
proof -
  have empty: "\<forall>c. length (timestamps Map.empty c) \<le> 10"
    by (simp add: timestamps_def)
  have len: "length (timestamps (fst (serve Map.empty rs)) k) \<le> 10" for rs k
    using serve_length[OF empty] .
  have a: "fst (serve Map.empty reqs) c = Some l \<longrightarrow> length l \<le> 10"
    using len[of reqs c] by (auto simp: timestamps_def)
  have last: "fst (serve Map.empty (reqs @ [(ip, now)])) =
              fst (rate_limiter (fst (serve Map.empty reqs)) ip now)"
    by (simp add: serve_append split_def Let_def)
  have b: "fst (serve Map.empty (reqs @ [(ip, now)])) ip = Some l' \<longrightarrow>
      length l' \<le> 10 \<and> (\<forall>t\<in>set l'. now - 60 < t)"
    using len[of "reqs @ [(ip, now)]" ip]
      rate_limiter_recent[of "fst (serve Map.empty reqs)" ip now]
    by (auto simp: last timestamps_def)
  from a b show ?thesis by blast
qed

theorem rate_limit_store_invariant_witness:
  "fst (serve Map.empty [(''10.0.0.1'', 0)]) ''10.0.0.1'' = Some [0] \<and>
   length [0::real] \<le> 10 \<and>
   fst (serve Map.empty ([(''10.0.0.1'', 0)] @ [(''10.0.0.2'', 100)])) ''10.0.0.2'' = Some [100] \<and>
   (100::real) - 60 < 100"
  using rate_limit_store_invariant[where reqs = "[(''10.0.0.1'', 0)]" and c = "''10.0.0.1''"
      and l = "[0]" and ip = "''10.0.0.2''" and now = 100 and l' = "[100]"]
  by (simp add: rate_limiter_unfold timestamps_def Let_def)

text \<open>
  C9 as stated fails for the clients that the last check was not about: after a
  request of one client at instant 0 and a request of another at instant 100, the first
  client's list still holds the instant 0, which is not later than \<open>100 - 60\<close>.
\<close>

theorem stale_instants_counterexample:
  "fst (serve Map.empty [(''10.0.0.1'', 0), (''10.0.0.2'', 100)]) ''10.0.0.1'' = Some [0] \<and>
   \<not> ((100::real) - 60 < 0)"
  by (simp add: rate_limiter_unfold timestamps_def Let_def)

section \<open>Claims on the TTL cache\<close>

text \<open>
  C3. For every cache state, key and instant, \<open>get\<close> returns a value exactly when an
  entry of the key is stored and \<open>now \<le> expiry\<close>, and then it is the stored value; an
  entry that has expired is removed and the call is a miss; a key with no entry is a
  miss; and each call adds 1 to exactly one of the two counters: to \<open>hits\<close> when it
  returns a value, to \<open>misses\<close> when it does not.
\<close>

theorem cache_get:
  "(snd (get c key now) = Some v \<longleftrightarrow>
      (\<exists>e. store c key = Some e \<and> now \<le> expiry e \<and> data e = v))
   \<and> (store c key = Some e \<and> now \<le> expiry e \<longrightarrow>
        get c key now = (c\<lparr>hits := hits c + 1\<rparr>, Some (data e)))
   \<and> (store c key = Some e \<and> expiry e < now \<longrightarrow>
        get c key now = (c\<lparr>store := (store c)(key := None), misses := misses c + 1\<rparr>, None))
   \<and> (store c key = None \<longrightarrow> get c key now = (c\<lparr>misses := misses c + 1\<rparr>, None))
   \<and> (hits (fst (get c key now)) = hits c + 1 \<and> misses (fst (get c key now)) = misses c
          \<and> snd (get c key now) \<noteq> None
        \<or> hits (fst (get c key now)) = hits c \<and> misses (fst (get c key now)) = misses c + 1
          \<and> snd (get c key now) = None)"
  by (cases "store c key") (auto simp: get_def)

theorem cache_get_witness:
  "get \<lparr>store = [''current_paris'' \<mapsto> \<lparr>data = (7::nat), expiry = 600\<rparr>], hits = 2, misses = 1\<rparr>
       ''current_paris'' 600 =
     (\<lparr>store = [''current_paris'' \<mapsto> \<lparr>data = 7, expiry = 600\<rparr>], hits = 3, misses = 1\<rparr>, Some 7)
   \<and> get \<lparr>store = [''current_paris'' \<mapsto> \<lparr>data = (7::nat), expiry = 600\<rparr>], hits = 2, misses = 1\<rparr>
       ''current_paris'' 601 =
     (\<lparr>store = Map.empty, hits = 2, misses = 2\<rparr>, None)
   \<and> get \<lparr>store = [''current_paris'' \<mapsto> \<lparr>data = (7::nat), expiry = 600\<rparr>], hits = 2, misses = 1\<rparr>
       ''current_rome'' 601 =
     (\<lparr>store = [''current_paris'' \<mapsto> \<lparr>data = 7, expiry = 600\<rparr>], hits = 2, misses = 2\<rparr>, None)"
  using
    cache_get[where c = "\<lparr>store = [''current_paris'' \<mapsto> \<lparr>data = (7::nat), expiry = 600\<rparr>], hits = 2, misses = 1\<rparr>"
      and key = "''current_paris''" and now = 600 and e = "\<lparr>data = 7, expiry = 600\<rparr>"]
    cache_get[where c = "\<lparr>store = [''current_paris'' \<mapsto> \<lparr>data = (7::nat), expiry = 600\<rparr>], hits = 2, misses = 1\<rparr>"
      and key = "''current_paris''" and now = 601 and e = "\<lparr>data = 7, expiry = 600\<rparr>"]
    cache_get[where c = "\<lparr>store = [''current_paris'' \<mapsto> \<lparr>data = (7::nat), expiry = 600\<rparr>], hits = 2, misses = 1\<rparr>"
      and key = "''current_rome''" and now = 601]
  by simp

text \<open>
  C4. For an entry within its time to live, two consecutive \<open>get\<close> calls of its key
  return the same payload, raise \<open>hits\<close> by 2 and leave \<open>misses\<close> as it was; so do two
  reads of an entry within \<open>CACHE_TTL_SECONDS\<close> of the \<open>set\<close> that wrote it. After
  \<open>clear\<close> the store is empty and both counters are 0, and the next \<open>get\<close> of any key
  is a miss.
\<close>

theorem cache_idempotence:
  "(store c key = Some e \<and> now \<le> expiry e \<and> now' \<le> expiry e \<longrightarrow>
      snd (get c key now) = Some (data e)
    \<and> snd (get (fst (get c key now)) key now') = snd (get c key now)
    \<and> hits (fst (get (fst (get c key now)) key now')) = hits c + 2
    \<and> misses (fst (get (fst (get c key now)) key now')) = misses c)
   \<and> (t \<le> now \<and> now \<le> t + CACHE_TTL_SECONDS \<and> t \<le> now' \<and> now' \<le> t + CACHE_TTL_SECONDS \<longrightarrow>
      snd (get (set_entry c key d t) key now) = Some d
    \<and> snd (get (fst (get (set_entry c key d t) key now)) key now') = Some d
    \<and> hits (fst (get (fst (get (set_entry c key d t) key now)) key now')) = hits c + 2
    \<and> misses (fst (get (fst (get (set_entry c key d t) key now)) key now')) = misses c)
   \<and> store (clear c) = Map.empty \<and> hits (clear c) = 0 \<and> misses (clear c) = 0
   \<and> snd (get (clear c) k now) = None
   \<and> hits (fst (get (clear c) k now)) = 0 \<and> misses (fst (get (clear c) k now)) = 1"
  by (auto simp: get_def set_entry_def clear_def)

theorem cache_idempotence_witness:
  "snd (get \<lparr>store = [''current_paris'' \<mapsto> \<lparr>data = (7::nat), expiry = 600\<rparr>], hits = 2, misses = 1\<rparr>
         ''current_paris'' 10) = Some 7
   \<and> snd (get (fst (get \<lparr>store = [''current_paris'' \<mapsto> \<lparr>data = (7::nat), expiry = 600\<rparr>],
                         hits = 2, misses = 1\<rparr> ''current_paris'' 10)) ''current_paris'' 600) = Some 7
   \<and> hits (fst (get (fst (get \<lparr>store = [''current_paris'' \<mapsto> \<lparr>data = (7::nat), expiry = 600\<rparr>],
                         hits = 2, misses = 1\<rparr> ''current_paris'' 10)) ''current_paris'' 600)) = 4
   \<and> misses (fst (get (fst (get \<lparr>store = [''current_paris'' \<mapsto> \<lparr>data = (7::nat), expiry = 600\<rparr>],
                         hits = 2, misses = 1\<rparr> ''current_paris'' 10)) ''current_paris'' 600)) = 1
   \<and> snd (get (fst (get (set_entry (init_cache :: nat WeatherCache) ''current_rome'' 3 100)
                   ''current_rome'' 100)) ''current_rome'' 700) = Some 3
   \<and> hits (fst (get (fst (get (set_entry (init_cache :: nat WeatherCache) ''current_rome'' 3 100)
                   ''current_rome'' 100)) ''current_rome'' 700)) = 2"
  using
    cache_idempotence[where c = "\<lparr>store = [''current_paris'' \<mapsto> \<lparr>data = (7::nat), expiry = 600\<rparr>], hits = 2, misses = 1\<rparr>"
      and key = "''current_paris''" and e = "\<lparr>data = 7, expiry = 600\<rparr>" and now = 10
      and now' = 600 and t = 0 and d = 7]
    cache_idempotence[where c = "init_cache :: nat WeatherCache"
      and key = "''current_rome''" and e = "\<lparr>data = 7, expiry = 600\<rparr>" and now = 100
      and now' = 700 and t = 100 and d = 3]
  by (simp add: CACHE_TTL_SECONDS_def init_cache_def)

section \<open>The blog and the user profile: lemmas\<close>

lemma find_by_key:
  "distinct (map f xs) \<Longrightarrow> x \<in> set xs \<Longrightarrow> find (\<lambda>y. f y = f x) xs = Some x"
proof (induction xs)
  case Nil
  then show ?case by simp
next
  case (Cons a xs)
  show ?case
  proof (cases "a = x")
    case True
    then show ?thesis by simp
  next
    case False
    with Cons.prems have "x \<in> set xs" by simp
    then have "f x \<in> f ` set xs" by blast
    with Cons.prems have "f a \<noteq> f x" by auto
    with Cons \<open>x \<in> set xs\<close> show ?thesis by simp
  qed
qed

lemma find_Some_key: "find (\<lambda>y. f y = k) xs = Some x \<Longrightarrow> x \<in> set xs \<and> f x = k"
  by (induction xs) (auto split: if_splits)

lemma update_post_owner:
  assumes "find (\<lambda>q. post_id q = pid) (posts d) = Some p" "post_author_id p = user_id u"
  shows "update_post d pid upd u =
     (d\<lparr>posts := map (\<lambda>q. if post_id q = pid
                then p\<lparr>title := (if given (upd_title upd) then the (upd_title upd) else title p),
                       content := (if given (upd_content upd) then the (upd_content upd)
                                   else content p)\<rparr>
                else q) (posts d)\<rparr>,
      Inr (p\<lparr>title := (if given (upd_title upd) then the (upd_title upd) else title p),
             content := (if given (upd_content upd) then the (upd_content upd)
                         else content p)\<rparr>))"
  using assms by (simp add: update_post_def given_def Let_def split: option.splits)

lemma update_post_refused:
  assumes "find (\<lambda>q. post_id q = pid) (posts d) = None
           \<or> (\<exists>p. find (\<lambda>q. post_id q = pid) (posts d) = Some p \<and> post_author_id p \<noteq> user_id u)"
  shows "fst (update_post d pid upd u) = d \<and> (\<exists>e. snd (update_post d pid upd u) = Inl e)"
  using assms by (auto simp: update_post_def)

lemma update_post_cases:
  obtains (refused) "fst (update_post d pid upd u) = d" "\<exists>e. snd (update_post d pid upd u) = Inl e"
  | (owner) p where "find (\<lambda>q. post_id q = pid) (posts d) = Some p" "post_author_id p = user_id u"
proof (cases "find (\<lambda>q. post_id q = pid) (posts d)")
  case None
  then show ?thesis using update_post_refused[of pid d u upd] refused by blast
next
  case (Some p)
  show ?thesis
  proof (cases "post_author_id p = user_id u")
    case True
    with Some show ?thesis using owner by blast
  next
    case False
    with Some show ?thesis using update_post_refused[of pid d u upd] refused by blast
  qed
qed

lemma update_post_nonempty:
  assumes "\<forall>q\<in>set (posts d). f q \<noteq> []"
      and "f = title \<or> f = content"
  shows "\<forall>q\<in>set (posts (fst (update_post d pid upd u))). f q \<noteq> []"
proof (cases rule: update_post_cases[of d pid upd u])
  case refused
  with assms show ?thesis by simp
next
  case (owner p)
  from owner(1) have pin: "p \<in> set (posts d)"
    using find_Some_key[of post_id pid "posts d" p] by simp
  with assms(1) have fp: "f p \<noteq> []" by blast
  define p' where "p' = p\<lparr>title := (if given (upd_title upd) then the (upd_title upd) else title p),
               content := (if given (upd_content upd) then the (upd_content upd)
                           else content p)\<rparr>"
  have fp': "f p' \<noteq> []"
    using assms(2) fp by (auto simp: p'_def given_def split: option.splits)
  have "posts (fst (update_post d pid upd u)) = map (\<lambda>q. if post_id q = pid then p' else q) (posts d)"
    by (simp add: update_post_owner[OF owner] p'_def)
  with assms(1) fp' show ?thesis
    by auto
qed


lemma update_user_me_blank_username:
  assumes "\<not> given (upd_username uu)"
  shows "\<exists>u2. username u2 = username cu \<and>
           (update_user_me violates rows uu cu =
              (map (\<lambda>r. if user_id r = user_id cu then u2 else r) rows, Inr u2)
            \<or> fst (update_user_me violates rows uu cu) = rows
              \<and> (\<exists>e. snd (update_user_me violates rows uu cu) = Inl e))"
proof -
  define new_mail where "new_mail = (case upd_email uu of None \<Rightarrow> [] | Some e \<Rightarrow> e)"
  define changes where "changes = (given (upd_email uu) \<and> new_mail \<noteq> email cu)"
  define u1 where "u1 = (if changes then cu\<lparr>email := new_mail\<rparr> else cu)"
  have u2: "(case upd_username uu of None \<Rightarrow> u1
             | Some n \<Rightarrow> if n \<noteq> [] then u1\<lparr>username := n\<rparr> else u1) = u1"
    using assms by (simp add: given_def split: option.splits)
  have name: "username u1 = username cu"
    by (simp add: u1_def)
  have eq: "update_user_me violates rows uu cu =
     (if changes \<and> find (\<lambda>r. email r = new_mail) rows \<noteq> None
      then (rows, Inl (HTTPException 400 ''Email already in use''))
      else if violates (filter (\<lambda>r. user_id r \<noteq> user_id cu) rows) u1
        then (rows, Inl IntegrityError)
        else (map (\<lambda>r. if user_id r = user_id cu then u1 else r) rows, Inr u1))"
    unfolding update_user_me_def Let_def new_mail_def[symmetric] changes_def[symmetric]
      u1_def[symmetric] u2 by (rule refl)
  show ?thesis
    using name by (intro exI[of _ u1]) (simp add: eq)
qed

section \<open>Claims on ownership and on updates\<close>

text \<open>
  C2. For every post or comment in the store and every authenticated user whose key
  differs from the resource's \<open>author_id\<close>, \<open>update_post\<close>, \<open>delete_post\<close> and
  \<open>delete_comment\<close> raise \<open>HTTPException\<close> with status 403 (not 401) and leave the
  store as it was; and whenever one of the three succeeds, the row of that key belongs
  to the acting user.
\<close>

theorem ownership_guard:
  "(distinct (map post_id (posts d)) \<and> p \<in> set (posts d) \<and> post_author_id p \<noteq> user_id u \<longrightarrow>
       update_post d (post_id p) upd u =
         (d, Inl (HTTPException 403 ''Not authorized to update this post''))
     \<and> delete_post d (post_id p) u =
         (d, Inl (HTTPException 403 ''Not authorized to delete this post'')))
   \<and> (distinct (map comment_id (comments d)) \<and> c \<in> set (comments d)
        \<and> comment_author_id c \<noteq> user_id u \<longrightarrow>
       delete_comment d (comment_id c) u =
         (d, Inl (HTTPException 403 ''Not authorized to delete this comment'')))
   \<and> (snd (update_post d pid upd u) = Inr r \<longrightarrow>
        (\<exists>q \<in> set (posts d). post_id q = pid \<and> post_author_id q = user_id u))
   \<and> (snd (delete_post d pid u) = Inr x \<longrightarrow>
        (\<exists>q \<in> set (posts d). post_id q = pid \<and> post_author_id q = user_id u))
   \<and> (snd (delete_comment d cid u) = Inr x \<longrightarrow>
        (\<exists>q \<in> set (comments d). comment_id q = cid \<and> comment_author_id q = user_id u))"
proof -
  have a: "update_post d (post_id p) upd u =
         (d, Inl (HTTPException 403 ''Not authorized to update this post''))
     \<and> delete_post d (post_id p) u =
         (d, Inl (HTTPException 403 ''Not authorized to delete this post''))"
    if "distinct (map post_id (posts d))" "p \<in> set (posts d)" "post_author_id p \<noteq> user_id u"
    using find_by_key[OF that(1,2)] that(3) by (simp add: update_post_def delete_post_def)
  have b: "delete_comment d (comment_id c) u =
         (d, Inl (HTTPException 403 ''Not authorized to delete this comment''))"
    if "distinct (map comment_id (comments d))" "c \<in> set (comments d)"
       "comment_author_id c \<noteq> user_id u"
    using find_by_key[OF that(1,2)] that(3) by (simp add: delete_comment_def)
  have c: "\<exists>q \<in> set (posts d). post_id q = pid \<and> post_author_id q = user_id u"
    if "snd (update_post d pid upd u) = Inr r"
    using that find_Some_key[of post_id pid "posts d"]
    by (auto simp: update_post_def Let_def split: option.splits if_splits)
  have d: "\<exists>q \<in> set (posts d). post_id q = pid \<and> post_author_id q = user_id u"
    if "snd (delete_post d pid u) = Inr x"
    using that find_Some_key[of post_id pid "posts d"]
    by (auto simp: delete_post_def split: option.splits if_splits)
  have e: "\<exists>q \<in> set (comments d). comment_id q = cid \<and> comment_author_id q = user_id u"
    if "snd (delete_comment d cid u) = Inr x"
    using that find_Some_key[of comment_id cid "comments d"]
    by (auto simp: delete_comment_def split: option.splits if_splits)
  from a b c d e show ?thesis by blast
qed


theorem ownership_guard_witness:
  "update_post
     \<lparr>users = [], posts = [\<lparr>post_id = 1, title = ''User1 Post'', content = ''Content'', post_author_id = 1\<rparr>],
      comments = [\<lparr>comment_id = 1, comment_text = ''My Comment'', comment_author_id = 1, comment_post_id = 1\<rparr>]\<rparr>
     1 \<lparr>upd_title = Some ''Hacked Title'', upd_content = None\<rparr>
     \<lparr>user_id = 2, username = ''user2'', email = ''user2@example.com'', hashed_password = ''h2''\<rparr>
   = (\<lparr>users = [], posts = [\<lparr>post_id = 1, title = ''User1 Post'', content = ''Content'', post_author_id = 1\<rparr>],
      comments = [\<lparr>comment_id = 1, comment_text = ''My Comment'', comment_author_id = 1, comment_post_id = 1\<rparr>]\<rparr>,
      Inl (HTTPException 403 ''Not authorized to update this post''))
   \<and> delete_comment
     \<lparr>users = [], posts = [\<lparr>post_id = 1, title = ''User1 Post'', content = ''Content'', post_author_id = 1\<rparr>],
      comments = [\<lparr>comment_id = 1, comment_text = ''My Comment'', comment_author_id = 1, comment_post_id = 1\<rparr>]\<rparr>
     1 \<lparr>user_id = 2, username = ''user2'', email = ''user2@example.com'', hashed_password = ''h2''\<rparr>
   = (\<lparr>users = [], posts = [\<lparr>post_id = 1, title = ''User1 Post'', content = ''Content'', post_author_id = 1\<rparr>],
      comments = [\<lparr>comment_id = 1, comment_text = ''My Comment'', comment_author_id = 1, comment_post_id = 1\<rparr>]\<rparr>,
      Inl (HTTPException 403 ''Not authorized to delete this comment''))
   \<and> snd (delete_post
     \<lparr>users = [], posts = [\<lparr>post_id = 1, title = ''User1 Post'', content = ''Content'', post_author_id = 1\<rparr>],
      comments = [\<lparr>comment_id = 1, comment_text = ''My Comment'', comment_author_id = 1, comment_post_id = 1\<rparr>]\<rparr>
     1 \<lparr>user_id = 1, username = ''testuser'', email = ''test@example.com'', hashed_password = ''h1''\<rparr>)
   = Inr ()"
proof -
  let ?p = "\<lparr>post_id = 1, title = ''User1 Post'', content = ''Content'', post_author_id = 1\<rparr>"
  let ?c = "\<lparr>comment_id = 1, comment_text = ''My Comment'', comment_author_id = 1, comment_post_id = 1\<rparr>"
  let ?d = "\<lparr>users = [], posts = [?p], comments = [?c]\<rparr>"
  let ?u = "\<lparr>user_id = 2, username = ''user2'', email = ''user2@example.com'', hashed_password = ''h2''\<rparr>"
  let ?o = "\<lparr>user_id = 1, username = ''testuser'', email = ''test@example.com'', hashed_password = ''h1''\<rparr>"
  let ?upd = "\<lparr>upd_title = Some ''Hacked Title'', upd_content = None\<rparr>"
  have h1: "distinct (map post_id (posts ?d)) \<and> ?p \<in> set (posts ?d)
            \<and> post_author_id ?p \<noteq> user_id ?u"
    by simp
  have h2: "distinct (map comment_id (comments ?d)) \<and> ?c \<in> set (comments ?d)
            \<and> comment_author_id ?c \<noteq> user_id ?u"
    by simp
  have h3: "snd (delete_post ?d 1 ?o) = Inr ()"
    by (simp add: delete_post_def)
  note g = ownership_guard[where d = ?d and p = ?p and c = ?c and u = ?u and upd = ?upd]
  from g h1 have a: "update_post ?d (post_id ?p) ?upd ?u =
      (?d, Inl (HTTPException 403 ''Not authorized to update this post''))"
    by blast
  from g h2 have b: "delete_comment ?d (comment_id ?c) ?u =
      (?d, Inl (HTTPException 403 ''Not authorized to delete this comment''))"
    by blast
  from a b h3 show ?thesis by simp
qed

text \<open>
  C10. For every post and every update by its owner, a title or content that is absent
  or the empty string leaves that field of the post as it was, and a field that is
  applied is the non-empty value of the request; so an update never makes a title or a
  content empty in a table that had none. Likewise \<open>update_user_me\<close> with an absent or
  empty username leaves the username of the current user as it was.
\<close>

theorem update_ignores_blank_fields:
  "(snd (update_post d pid upd u) = Inr r \<and> find (\<lambda>q. post_id q = pid) (posts d) = Some p \<longrightarrow>
        (\<not> given (upd_title upd) \<longrightarrow> title r = title p)
      \<and> (\<not> given (upd_content upd) \<longrightarrow> content r = content p)
      \<and> (given (upd_title upd) \<longrightarrow> upd_title upd = Some (title r))
      \<and> (given (upd_content upd) \<longrightarrow> upd_content upd = Some (content r))
      \<and> posts (fst (update_post d pid upd u)) =
          map (\<lambda>q. if post_id q = pid then r else q) (posts d))
   \<and> ((\<forall>q\<in>set (posts d). title q \<noteq> []) \<longrightarrow>
        (\<forall>q\<in>set (posts (fst (update_post d pid upd u))). title q \<noteq> []))
   \<and> ((\<forall>q\<in>set (posts d). content q \<noteq> []) \<longrightarrow>
        (\<forall>q\<in>set (posts (fst (update_post d pid upd u))). content q \<noteq> []))
   \<and> (\<not> given (upd_username uu) \<longrightarrow>
        (snd (update_user_me violates rows uu cu) = Inr r' \<longrightarrow> username r' = username cu)
      \<and> ((\<forall>x\<in>set rows. user_id x = user_id cu \<longrightarrow> username x = username cu) \<longrightarrow>
           map username (fst (update_user_me violates rows uu cu)) = map username rows))"
proof -
  have a: "(\<not> given (upd_title upd) \<longrightarrow> title r = title p)
      \<and> (\<not> given (upd_content upd) \<longrightarrow> content r = content p)
      \<and> (given (upd_title upd) \<longrightarrow> upd_title upd = Some (title r))
      \<and> (given (upd_content upd) \<longrightarrow> upd_content upd = Some (content r))
      \<and> posts (fst (update_post d pid upd u)) =
          map (\<lambda>q. if post_id q = pid then r else q) (posts d)"
    if ok: "snd (update_post d pid upd u) = Inr r"
      and found: "find (\<lambda>q. post_id q = pid) (posts d) = Some p"
  proof -
    have "post_author_id p = user_id u"
      using update_post_refused[of pid d u upd] ok found by auto
    note eq = update_post_owner[OF found this, of upd]
    from ok have r: "r = p\<lparr>title := (if given (upd_title upd) then the (upd_title upd) else title p),
             content := (if given (upd_content upd) then the (upd_content upd)
                         else content p)\<rparr>"
      by (simp add: eq)
    have t: "given (upd_title upd) \<longrightarrow> upd_title upd = Some (title r)"
      by (cases "upd_title upd") (simp_all add: r given_def)
    have c: "given (upd_content upd) \<longrightarrow> upd_content upd = Some (content r)"
      by (cases "upd_content upd") (simp_all add: r given_def)
    have k: "(\<not> given (upd_title upd) \<longrightarrow> title r = title p)
      \<and> (\<not> given (upd_content upd) \<longrightarrow> content r = content p)"
      by (simp add: r)
    have tab: "posts (fst (update_post d pid upd u)) =
          map (\<lambda>q. if post_id q = pid then r else q) (posts d)"
      unfolding r by (simp add: eq)
    from t c k tab show ?thesis by blast
  qed
  have b: "\<forall>q\<in>set (posts (fst (update_post d pid upd u))). title q \<noteq> []"
    if "\<forall>q\<in>set (posts d). title q \<noteq> []"
    using update_post_nonempty[OF that, of pid upd u] by simp
  have c: "\<forall>q\<in>set (posts (fst (update_post d pid upd u))). content q \<noteq> []"
    if "\<forall>q\<in>set (posts d). content q \<noteq> []"
    using update_post_nonempty[OF that, of pid upd u] by simp
  have e: "(snd (update_user_me violates rows uu cu) = Inr r' \<longrightarrow> username r' = username cu)
      \<and> ((\<forall>x\<in>set rows. user_id x = user_id cu \<longrightarrow> username x = username cu) \<longrightarrow>
           map username (fst (update_user_me violates rows uu cu)) = map username rows)"
    if blank: "\<not> given (upd_username uu)"
  proof -
    from update_user_me_blank_username[OF blank, of cu violates rows]
    obtain u2 where name: "username u2 = username cu"
      and res: "update_user_me violates rows uu cu =
              (map (\<lambda>r. if user_id r = user_id cu then u2 else r) rows, Inr u2)
            \<or> fst (update_user_me violates rows uu cu) = rows
              \<and> (\<exists>e. snd (update_user_me violates rows uu cu) = Inl e)"
      by blast
    from res show ?thesis
    proof
      assume w: "update_user_me violates rows uu cu =
              (map (\<lambda>r. if user_id r = user_id cu then u2 else r) rows, Inr u2)"
      have "map username (map (\<lambda>r. if user_id r = user_id cu then u2 else r) rows) =
            map username rows"
        if "\<forall>x\<in>set rows. user_id x = user_id cu \<longrightarrow> username x = username cu"
        using that name by (induction rows) auto
      with name show ?thesis by (auto simp: w)
    next
      assume "fst (update_user_me violates rows uu cu) = rows
              \<and> (\<exists>e. snd (update_user_me violates rows uu cu) = Inl e)"
      then show ?thesis by auto
    qed
  qed
  from a b c e show ?thesis by blast
qed


theorem update_ignores_blank_fields_witness:
  "snd (update_post
         \<lparr>users = [], posts = [\<lparr>post_id = 1, title = ''User1 Post'', content = ''Content'', post_author_id = 1\<rparr>],
          comments = []\<rparr>
         1 \<lparr>upd_title = Some [], upd_content = None\<rparr>
         \<lparr>user_id = 1, username = ''testuser'', email = ''test@example.com'', hashed_password = ''h1''\<rparr>)
     = Inr \<lparr>post_id = 1, title = ''User1 Post'', content = ''Content'', post_author_id = 1\<rparr>
   \<and> posts (fst (update_post
         \<lparr>users = [], posts = [\<lparr>post_id = 1, title = ''User1 Post'', content = ''Content'', post_author_id = 1\<rparr>],
          comments = []\<rparr>
         1 \<lparr>upd_title = Some [], upd_content = None\<rparr>
         \<lparr>user_id = 1, username = ''testuser'', email = ''test@example.com'', hashed_password = ''h1''\<rparr>))
     = [\<lparr>post_id = 1, title = ''User1 Post'', content = ''Content'', post_author_id = 1\<rparr>]
   \<and> snd (update_user_me unique_email
         [\<lparr>user_id = 1, username = ''testuser'', email = ''test@example.com'', hashed_password = ''h1''\<rparr>]
         \<lparr>upd_username = Some [], upd_email = Some ''new@example.com''\<rparr>
         \<lparr>user_id = 1, username = ''testuser'', email = ''test@example.com'', hashed_password = ''h1''\<rparr>)
     = Inr \<lparr>user_id = 1, username = ''testuser'', email = ''new@example.com'', hashed_password = ''h1''\<rparr>
   \<and> map username (fst (update_user_me unique_email
         [\<lparr>user_id = 1, username = ''testuser'', email = ''test@example.com'', hashed_password = ''h1''\<rparr>]
         \<lparr>upd_username = Some [], upd_email = Some ''new@example.com''\<rparr>
         \<lparr>user_id = 1, username = ''testuser'', email = ''test@example.com'', hashed_password = ''h1''\<rparr>))
     = [''testuser'']"
proof -
  let ?p = "\<lparr>post_id = 1, title = ''User1 Post'', content = ''Content'', post_author_id = 1\<rparr>"
  let ?d = "\<lparr>users = [], posts = [?p], comments = []\<rparr>"
  let ?o = "\<lparr>user_id = 1, username = ''testuser'', email = ''test@example.com'', hashed_password = ''h1''\<rparr>"
  let ?o' = "\<lparr>user_id = 1, username = ''testuser'', email = ''new@example.com'', hashed_password = ''h1''\<rparr>"
  let ?upd = "\<lparr>upd_title = Some [], upd_content = None\<rparr>"
  let ?uu = "\<lparr>upd_username = Some [], upd_email = Some ''new@example.com''\<rparr>"
  have h1: "snd (update_post ?d 1 ?upd ?o) = Inr ?p \<and> find (\<lambda>q. post_id q = 1) (posts ?d) = Some ?p"
    by (simp add: update_post_def Let_def)
  have h2: "\<not> given (upd_title ?upd) \<and> \<not> given (upd_content ?upd) \<and> \<not> given (upd_username ?uu)"
    by (simp add: given_def)
  have h3: "snd (update_user_me unique_email [?o] ?uu ?o) = Inr ?o'"
    by (simp add: update_user_me_def given_def unique_email_def Let_def)
  have h4: "\<forall>x\<in>set [?o]. user_id x = user_id ?o \<longrightarrow> username x = username ?o"
    by simp
  have h5: "\<forall>q\<in>set (posts ?d). title q \<noteq> []"
    by simp
  note g = update_ignores_blank_fields[where d = ?d and pid = 1 and upd = ?upd and u = ?o
      and r = ?p and p = ?p and uu = ?uu and violates = unique_email and rows = "[?o]"
      and cu = ?o and r' = ?o']
  from g h1 have a: "posts (fst (update_post ?d 1 ?upd ?o)) =
      map (\<lambda>q. if post_id q = 1 then ?p else q) (posts ?d)"
    by blast
  from g h2 h4 have b: "map username (fst (update_user_me unique_email [?o] ?uu ?o)) =
      map username [?o]"
    by blast
  from h1 a h3 b show ?thesis by simp
qed

section \<open>Registration: lemmas\<close>

lemma find_Some_ex: "(\<exists>r\<in>set xs. P r) \<Longrightarrow> \<exists>x. find P xs = Some x"
  by (cases "find P xs") (auto simp: find_None_iff)

lemma find_append_keep:
  "find P xs = Some x \<Longrightarrow> find P (xs @ ys) = Some x"
  by (induction xs) (auto split: if_splits)


section \<open>Claims on registration\<close>

text \<open>
  C5, as the code has it. In assignment 3, for every store, registering with a username
  that is already registered fails with status 400, and a row that the store refuses
  for a uniqueness constraint (an email already used) fails with status 400 too;
  every failure of \<open>register\<close> there has status 400 and leaves the store exactly as it
  was, and a user found by username before the call is found after it. In assignment 1,
  registering with an email that is already used fails with status 400 and leaves the
  table as it was.
\<close>

theorem registration_conflict:
  "((\<exists>r\<in>set (users d). username r = new_username u) \<longrightarrow>
       register_a3 hash violates d u =
         (d, Inl (HTTPException 400 ''Username already registered'')))
   \<and> (\<not> (\<exists>r\<in>set (users d). username r = new_username u)
        \<and> violates (users d)
             \<lparr>user_id = next_id (map user_id (users d)), username = new_username u,
              email = new_email u, hashed_password = hash (password u)\<rparr> \<longrightarrow>
       register_a3 hash violates d u =
         (d, Inl (HTTPException 400 ''Email already registered'')))
   \<and> (snd (register_a3 hash violates d u) = Inl e \<longrightarrow>
        fst (register_a3 hash violates d u) = d \<and> (\<exists>msg. e = HTTPException 400 msg))
   \<and> (find (\<lambda>r. username r = n) (users d) = Some r0 \<longrightarrow>
        find (\<lambda>r. username r = n) (users (fst (register_a3 hash violates d u))) = Some r0)
   \<and> ((\<exists>r\<in>set rows. email r = new_email u) \<longrightarrow>
       register_a1 hash violates' rows u =
         (rows, Inl (HTTPException 400 ''Email already registered'')))"
proof -
  have a: "register_a3 hash violates d u =
         (d, Inl (HTTPException 400 ''Username already registered''))"
    if "\<exists>r\<in>set (users d). username r = new_username u"
    using find_Some_ex[OF that] by (auto simp: register_a3_def)
  have none: "find (\<lambda>r. username r = new_username u) (users d) = None"
    if "\<not> (\<exists>r\<in>set (users d). username r = new_username u)"
    using that by (simp add: find_None_iff)
  have b: "register_a3 hash violates d u =
         (d, Inl (HTTPException 400 ''Email already registered''))"
    if "\<not> (\<exists>r\<in>set (users d). username r = new_username u)"
       "violates (users d)
             \<lparr>user_id = next_id (map user_id (users d)), username = new_username u,
              email = new_email u, hashed_password = hash (password u)\<rparr>"
    using none[OF that(1)] that(2) by (simp add: register_a3_def Let_def)
  have c: "fst (register_a3 hash violates d u) = d \<and> (\<exists>msg. e = HTTPException 400 msg)"
    if "snd (register_a3 hash violates d u) = Inl e"
    using that by (auto simp: register_a3_def Let_def split: option.splits if_splits)
  have q: "find (\<lambda>r. username r = n) (users (fst (register_a3 hash violates d u))) = Some r0"
    if "find (\<lambda>r. username r = n) (users d) = Some r0"
    using that find_append_keep[OF that]
    by (auto simp: register_a3_def Let_def split: option.splits)
  have f: "register_a1 hash violates' rows u =
         (rows, Inl (HTTPException 400 ''Email already registered''))"
    if "\<exists>r\<in>set rows. email r = new_email u"
    using find_Some_ex[OF that] by (auto simp: register_a1_def)
  from a b c q f show ?thesis by blast
qed


theorem registration_conflict_witness:
  "register_a3 rev unique_email
     \<lparr>users = [\<lparr>user_id = 1, username = ''user_A'', email = ''shared@email.com'', hashed_password = ''dwp''\<rparr>],
      posts = [], comments = []\<rparr>
     \<lparr>new_username = ''user_A'', new_email = ''other@email.com'', password = ''pwd''\<rparr>
   = (\<lparr>users = [\<lparr>user_id = 1, username = ''user_A'', email = ''shared@email.com'', hashed_password = ''dwp''\<rparr>],
      posts = [], comments = []\<rparr>,
      Inl (HTTPException 400 ''Username already registered''))
   \<and> register_a3 rev unique_email
     \<lparr>users = [\<lparr>user_id = 1, username = ''user_A'', email = ''shared@email.com'', hashed_password = ''dwp''\<rparr>],
      posts = [], comments = []\<rparr>
     \<lparr>new_username = ''user_B'', new_email = ''shared@email.com'', password = ''pwd''\<rparr>
   = (\<lparr>users = [\<lparr>user_id = 1, username = ''user_A'', email = ''shared@email.com'', hashed_password = ''dwp''\<rparr>],
      posts = [], comments = []\<rparr>,
      Inl (HTTPException 400 ''Email already registered''))
   \<and> register_a1 rev unique_email
     [\<lparr>user_id = 1, username = ''user_A'', email = ''shared@email.com'', hashed_password = ''dwp''\<rparr>]
     \<lparr>new_username = ''user_B'', new_email = ''shared@email.com'', password = ''password123''\<rparr>
   = ([\<lparr>user_id = 1, username = ''user_A'', email = ''shared@email.com'', hashed_password = ''dwp''\<rparr>],
      Inl (HTTPException 400 ''Email already registered''))"
proof -
  let ?a = "\<lparr>user_id = 1, username = ''user_A'', email = ''shared@email.com'', hashed_password = ''dwp''\<rparr>"
  let ?d = "\<lparr>users = [?a], posts = [], comments = []\<rparr>"
  let ?u1 = "\<lparr>new_username = ''user_A'', new_email = ''other@email.com'', password = ''pwd''\<rparr>"
  let ?u2 = "\<lparr>new_username = ''user_B'', new_email = ''shared@email.com'', password = ''pwd''\<rparr>"
  let ?u3 = "\<lparr>new_username = ''user_B'', new_email = ''shared@email.com'', password = ''password123''\<rparr>"
  have h1: "\<exists>r\<in>set (users ?d). username r = new_username ?u1"
    by simp
  have h2: "\<not> (\<exists>r\<in>set (users ?d). username r = new_username ?u2)
        \<and> unique_email (users ?d)
             \<lparr>user_id = next_id (map user_id (users ?d)), username = new_username ?u2,
              email = new_email ?u2, hashed_password = rev (password ?u2)\<rparr>"
    by (simp add: unique_email_def)
  have h3: "\<exists>r\<in>set [?a]. email r = new_email ?u3"
    by simp
  from registration_conflict[where d = ?d and u = ?u1 and hash = rev and violates = unique_email] h1
  have a: "register_a3 rev unique_email ?d ?u1 =
      (?d, Inl (HTTPException 400 ''Username already registered''))"
    by blast
  from registration_conflict[where d = ?d and u = ?u2 and hash = rev and violates = unique_email] h2
  have b: "register_a3 rev unique_email ?d ?u2 =
      (?d, Inl (HTTPException 400 ''Email already registered''))"
    by blast
  from registration_conflict[where rows = "[?a]" and u = ?u3 and hash = rev
      and violates' = unique_email] h3
  have c: "register_a1 rev unique_email [?a] ?u3 =
      ([?a], Inl (HTTPException 400 ''Email already registered''))"
    by blast
  from a b c show ?thesis by blast
qed

text \<open>
  C5 as stated fails in assignment 1, whose \<open>register\<close> looks for the email only: a
  second identity with the username of the first and a new email is not answered with
  status 400. When the table constrains the email alone the second identity is stored;
  when it constrains the username too, the \<open>IntegrityError\<close> of the commit leaves the
  handler uncaught.
\<close>

theorem duplicate_username_a1_counterexample:
  "register_a1 rev unique_email
     [\<lparr>user_id = 1, username = ''alice'', email = ''alice@example.com'', hashed_password = ''321drowssap''\<rparr>]
     \<lparr>new_username = ''alice'', new_email = ''second@example.com'', password = ''password456''\<rparr>
   = ([\<lparr>user_id = 1, username = ''alice'', email = ''alice@example.com'', hashed_password = ''321drowssap''\<rparr>,
       \<lparr>user_id = 2, username = ''alice'', email = ''second@example.com'', hashed_password = ''654drowssap''\<rparr>],
      Inr \<lparr>user_id = 2, username = ''alice'', email = ''second@example.com'', hashed_password = ''654drowssap''\<rparr>)
   \<and> register_a1 rev unique_username_and_email
     [\<lparr>user_id = 1, username = ''alice'', email = ''alice@example.com'', hashed_password = ''321drowssap''\<rparr>]
     \<lparr>new_username = ''alice'', new_email = ''second@example.com'', password = ''password456''\<rparr>
   = ([\<lparr>user_id = 1, username = ''alice'', email = ''alice@example.com'', hashed_password = ''321drowssap''\<rparr>],
      Inl IntegrityError)"
  by (simp add: register_a1_def unique_email_def unique_username_and_email_def next_id_def Let_def)




section \<open>Search and pagination: lemmas\<close>

text \<open>
  A pattern \<open>%s%\<close> whose \<open>s\<close> has neither \<open>%\<close> nor \<open>_\<close> matches exactly the texts
  that contain \<open>s\<close>; with it \<open>get_posts\<close> is the case-insensitive substring filter
  followed by the offset and the limit.
\<close>

lemma like_percent:
  "like (CHR ''%'' # ps) t \<longleftrightarrow> (\<exists>u v. t = u @ v \<and> like ps v)"
proof (induction t)
  case Nil
  then show ?case by simp
next
  case (Cons c cs)
  have "like (CHR ''%'' # ps) (c # cs) \<longleftrightarrow> like ps (c # cs) \<or> like (CHR ''%'' # ps) cs"
    by simp
  also have "\<dots> \<longleftrightarrow> like ps (c # cs) \<or> (\<exists>u v. cs = u @ v \<and> like ps v)"
    using Cons.IH by simp
  also have "\<dots> \<longleftrightarrow> (\<exists>u v. c # cs = u @ v \<and> like ps v)"
  proof
    assume "like ps (c # cs) \<or> (\<exists>u v. cs = u @ v \<and> like ps v)"
    then show "\<exists>u v. c # cs = u @ v \<and> like ps v"
    proof
      assume "like ps (c # cs)"
      then have "c # cs = [] @ (c # cs) \<and> like ps (c # cs)" by simp
      then show ?thesis by blast
    next
      assume "\<exists>u v. cs = u @ v \<and> like ps v"
      then obtain u v where "cs = u @ v" "like ps v" by blast
      then have "c # cs = (c # u) @ v \<and> like ps v" by simp
      then show ?thesis by blast
    qed
  next
    assume "\<exists>u v. c # cs = u @ v \<and> like ps v"
    then obtain u v where uv: "c # cs = u @ v" "like ps v" by blast
    show "like ps (c # cs) \<or> (\<exists>u v. cs = u @ v \<and> like ps v)"
    proof (cases u)
      case Nil
      with uv show ?thesis by simp
    next
      case (Cons a u')
      with uv have "cs = u' @ v" by simp
      with uv(2) show ?thesis by blast
    qed
  qed
  finally show ?case .
qed

lemma like_literal:
  assumes "CHR ''%'' \<notin> set s" "CHR ''_'' \<notin> set s"
  shows "like (s @ ps) t \<longleftrightarrow> (\<exists>v. t = s @ v \<and> like ps v)"
  using assms
proof (induction s arbitrary: t)
  case Nil
  then show ?case by simp
next
  case (Cons x xs)
  then have x: "x \<noteq> CHR ''%''" "x \<noteq> CHR ''_''" by auto
  from Cons have IH: "\<And>t. like (xs @ ps) t \<longleftrightarrow> (\<exists>v. t = xs @ v \<and> like ps v)" by simp
  show ?case
  proof (cases t)
    case Nil
    with x show ?thesis by simp
  next
    case (Cons c cs)
    with x IH show ?thesis by auto
  qed
qed

lemma like_only_percent: "like ''%'' t"
  by (induction t) auto

lemma like_contains:
  assumes "CHR ''%'' \<notin> set s" "CHR ''_'' \<notin> set s"
  shows "like (''%'' @ s @ ''%'') t \<longleftrightarrow> (\<exists>u w. t = u @ s @ w)"
proof -
  have "like (''%'' @ s @ ''%'') t \<longleftrightarrow> (\<exists>u v. t = u @ v \<and> like (s @ ''%'') v)"
    using like_percent[of "s @ ''%''" t] by simp
  also have "\<dots> \<longleftrightarrow> (\<exists>u v. t = u @ v \<and> (\<exists>w. v = s @ w))"
    using like_literal[OF assms, of "''%''"] like_only_percent by simp
  also have "\<dots> \<longleftrightarrow> (\<exists>u w. t = u @ s @ w)"
    by blast
  finally show ?thesis .
qed

lemma lower_char_wildcard:
  "lower_char c = CHR ''%'' \<longleftrightarrow> c = CHR ''%''"
  "lower_char c = CHR ''_'' \<longleftrightarrow> c = CHR ''_''"
  by (auto simp: lower_char_def)


lemma lower_percent_free:
  assumes "CHR ''%'' \<notin> set s"
  shows "CHR ''%'' \<notin> set (lower s)"
proof
  assume "CHR ''%'' \<in> set (lower s)"
  then obtain c where c: "c \<in> set s" "lower_char c = CHR ''%''"
    unfolding lower_def set_map by force
  from c(2) have "c = CHR ''%''" by (simp only: lower_char_wildcard)
  with c(1) assms show False by simp
qed

lemma lower_underscore_free:
  assumes "CHR ''_'' \<notin> set s"
  shows "CHR ''_'' \<notin> set (lower s)"
proof
  assume "CHR ''_'' \<in> set (lower s)"
  then obtain c where c: "c \<in> set s" "lower_char c = CHR ''_''"
    unfolding lower_def set_map by force
  from c(2) have "c = CHR ''_''" by (simp only: lower_char_wildcard)
  with c(1) assms show False by simp
qed

lemma ilike_contains:
  assumes "CHR ''%'' \<notin> set s" "CHR ''_'' \<notin> set s"
  shows "ilike txt (''%'' @ s @ ''%'') \<longleftrightarrow> (\<exists>u w. lower txt = u @ lower s @ w)"
proof -
  have "lower (''%'' @ s @ ''%'') = ''%'' @ lower s @ ''%''"
    by (simp add: lower_def lower_char_def)
  then show ?thesis
    using like_contains[OF lower_percent_free[OF assms(1)] lower_underscore_free[OF assms(2)],
        of "lower txt"]
    by (simp add: ilike_def)
qed

lemma get_posts_plain_search:
  assumes "CHR ''%'' \<notin> set s" "CHR ''_'' \<notin> set s" "0 \<le> skip" "0 \<le> limit"
  shows "get_posts d skip limit (Some s) =
           take (nat limit) (drop (nat skip)
             (filter (\<lambda>p. \<exists>u w. lower (title p) = u @ lower s @ w) (posts d)))"
    and "get_posts d skip limit None = take (nat limit) (drop (nat skip) (posts d))"
proof -
  show "get_posts d skip limit None = take (nat limit) (drop (nat skip) (posts d))"
    using assms(3,4) by (simp add: get_posts_def sql_limit_def sql_offset_def)
  show "get_posts d skip limit (Some s) =
           take (nat limit) (drop (nat skip)
             (filter (\<lambda>p. \<exists>u w. lower (title p) = u @ lower s @ w) (posts d)))"
  proof (cases "s = []")
    case True
    have "\<exists>u w. lower (title p) = u @ lower s @ w" for p :: post
      by (rule exI[of _ "[]"]) (simp add: True lower_def)
    then have "filter (\<lambda>p. \<exists>u w. lower (title p) = u @ lower s @ w) (posts d) = posts d"
      by simp
    then show ?thesis
      using assms(3,4) True by (simp add: get_posts_def sql_limit_def sql_offset_def)
  next
    case False
    have ic: "ilike t (CHR ''%'' # s @ ''%'') \<longleftrightarrow> (\<exists>u w. lower t = u @ lower s @ w)" for t
      using ilike_contains[OF assms(1,2), of t] by simp
    from False show ?thesis
      using assms(3,4)
      by (simp add: get_posts_def sql_limit_def sql_offset_def ic)
  qed
qed

lemma get_posts_pagination:
  assumes "length (posts d) = 15"
  shows "length (get_posts d 0 10 None) = 10" and "length (get_posts d 10 10 None) = 5"
  using assms by (simp_all add: get_posts_def sql_limit_def sql_offset_def)

lemma get_posts_search_python:
  "get_posts \<lparr>users = [],
              posts = [\<lparr>post_id = 1, title = ''FastAPI Guide'', content = ''A'', post_author_id = 1\<rparr>,
                       \<lparr>post_id = 2, title = ''Python Basics'', content = ''B'', post_author_id = 1\<rparr>],
              comments = []\<rparr> 0 10 (Some ''PYTHON'')
   = [\<lparr>post_id = 2, title = ''Python Basics'', content = ''B'', post_author_id = 1\<rparr>]"
  by code_simp

section \<open>Claim on search and pagination\<close>

text \<open>
  C8. The claim reads the search as a case-insensitive substring match on the title.
  The handler puts the search string unescaped into a \<open>LIKE\<close> pattern, so an
  underscore in it matches any character: with the posts titled \<open>FastAPI Guide\<close> and
  \<open>Python Basics\<close>, the search \<open>_\<close> returns both posts, and neither title contains
  an underscore.
\<close>

theorem search_wildcard_divergence:
  "get_posts \<lparr>users = [],
              posts = [\<lparr>post_id = 1, title = ''FastAPI Guide'', content = ''A'', post_author_id = 1\<rparr>,
                       \<lparr>post_id = 2, title = ''Python Basics'', content = ''B'', post_author_id = 1\<rparr>],
              comments = []\<rparr> 0 10 (Some ''_'')
   = [\<lparr>post_id = 1, title = ''FastAPI Guide'', content = ''A'', post_author_id = 1\<rparr>,
      \<lparr>post_id = 2, title = ''Python Basics'', content = ''B'', post_author_id = 1\<rparr>]
   \<and> CHR ''_'' \<notin> set ''FastAPI Guide'' \<and> CHR ''_'' \<notin> set ''Python Basics''"
  by code_simp

section \<open>The weather endpoints: lemmas\<close>

lemma get_coordinates_unavailable:
  "geo city = No_reply \<or> (\<exists>st body. geo city = Reply st body \<and> \<not> (200 \<le> st \<and> st < 300)) \<Longrightarrow>
     get_coordinates geo city = Inl (HTTPException 503 ''Weather service unavailable'')"
  by (auto simp: get_coordinates_def fetch_json_def bindE_def)

lemma get_coordinates_not_found:
  "geo city = Reply 200 (Some (JDict [(''results'', JList [])])) \<Longrightarrow>
     \<exists>msg. get_coordinates geo city = Inl (HTTPException 404 msg)"
  by (simp add: get_coordinates_def fetch_json_def bindE_def)

lemma fetch_current_weather_timeout:
  assumes "get_coordinates geo city = Inr location"
      and "getitem location ''latitude'' = Inr lat"
      and "getitem location ''longitude'' = Inr lon"
      and "getitem location ''name'' = Inr name"
      and "wx lat lon = No_reply"
  shows "fetch_current_weather geo wx c cache_key city now' =
    (c, Inl (HTTPException 503 ''Weather service unavailable (Connection Error)''))"
  using assms by (simp add: fetch_current_weather_def fetch_json_def bindE_def)

lemma fetch_weather_forecast_timeout:
  assumes "get_coordinates geo city = Inr location"
      and "getitem location ''latitude'' = Inr lat"
      and "getitem location ''longitude'' = Inr lon"
      and "wx lat lon = No_reply"
  shows "fetch_weather_forecast geo wx c cache_key city now' =
    (c, Inl (HTTPException 503 ''Weather service unavailable''))"
  using assms by (simp add: fetch_weather_forecast_def fetch_json_def bindE_def)

section \<open>Claim on the weather endpoints\<close>

text \<open>
  C6. The claim gives status 503 to every failure of the upstream service. When the
  geocoding service answers and the forecast service answers with an error status,
  \<open>raise_for_status\<close> raises \<open>HTTPStatusError\<close>: \<open>get_current_weather\<close> turns it into
  status 500, and \<open>get_weather_forecast\<close> lets it escape, which the server answers
  with status 500 as well.
\<close>

theorem upstream_status_error_is_500:
  "snd (get_current_weather
          (\<lambda>city. Reply 200 (Some (JDict [(''results'',
              JList [JDict [(''latitude'', JNum 51), (''longitude'', JNum 0),
                            (''name'', JStr ''London''), (''country'', JStr ''United Kingdom'')]])])))
          (\<lambda>lat lon. Reply 500 None) init_cache ''London'' 0 0)
     = Inl (HTTPException 500 ''Internal Server Error'')
   \<and> snd (get_weather_forecast
          (\<lambda>city. Reply 200 (Some (JDict [(''results'',
              JList [JDict [(''latitude'', JNum 51), (''longitude'', JNum 0),
                            (''name'', JStr ''London''), (''country'', JStr ''United Kingdom'')]])])))
          (\<lambda>lat lon. Reply 500 None) init_cache ''London'' 0 0)
     = Inl HTTPStatusError
   \<and> status_code (Inl (HTTPException 500 ''Internal Server Error'') :: exn + json) = 500
   \<and> status_code (Inl HTTPStatusError :: exn + json) = 500"
  by (simp add: get_current_weather_def get_weather_forecast_def fetch_current_weather_def
      fetch_weather_forecast_def get_coordinates_def fetch_json_def bindE_def get_def
      init_cache_def status_code_def)

end
